theory Spec2Isabelle
  imports Main "HOL-Library.Finite_Map"
begin

section \<open>Values\<close>

text \<open>
  A replicated value is a JSON-shaped document (spec, section 3): null, a primitive, an
  ordered sequence, or a mapping from strings to values. Mappings are unordered, and
  neither deep equality nor the revision hash looks at the order of keys, so an object is
  a finite map and deep equality of JavaScript values is equality of \<open>json\<close>.
  Numbers are integers here (no fractions, no NaN); arrays are dense and carry no named
  properties; strings are ASCII; no object is shared between two positions (a value that
  has crossed the wire is a tree).

  A JavaScript value that may also be \<open>undefined\<close> is a \<open>json option\<close>,
  \<open>None\<close> being \<open>undefined\<close>. The stored value of a fresh replicant is
  \<open>undefined\<close>, and so is what a read of an absent position returns.
\<close>

datatype json =
    JNull
  | JBool bool
  | JNum int
  | JStr string
  | JArr "json list"
  | JObj "(string, json) fmap"

text \<open>
  What the JavaScript runtime or a library raises. \<open>Unmodelled\<close> is not an
  exception of the program: it marks the inputs on which the program leaves the values
  above (an array with a hole or a named property, a slot holding \<open>undefined\<close>,
  \<open>splice\<close> applied to a plain object), where this development says nothing.
\<close>

datatype error = TypeError | Unmodelled

text \<open>The truth value JavaScript gives a value in \<open>if (!arr)\<close>.\<close>

fun falsy :: "json option \<Rightarrow> bool" where
  "falsy None = True"
| "falsy (Some JNull) = True"
| "falsy (Some (JBool b)) = (\<not> b)"
| "falsy (Some (JNum n)) = (n = 0)"
| "falsy (Some (JStr s)) = (s = [])"
| "falsy (Some (JArr xs)) = False"
| "falsy (Some (JObj m)) = False"

section \<open>Path addressing\<close>

text \<open>
  Modelled from the spec: the package \<open>object-path\<close> that \<open>src/server.js\<close> and
  \<open>src/client.js\<close> call as \<open>objectPath.get\<close>, \<open>objectPath.set\<close> and
  \<open>objectPath.del\<close> is a dependency whose text is not among the sources. Section 4.2
  of the spec describes it: a dotted string names a nested position; \<open>get\<close> reads it,
  \<open>set\<close> writes it and creates the intermediate containers that are missing,
  \<open>del\<close> removes the terminal slot; a numeric-looking segment is a sequence index
  when the parent is a sequence and a string key otherwise. The empty path is the value
  itself: \<open>get\<close> returns it, \<open>set\<close> and \<open>del\<close> do nothing (scenario 4 of
  the spec splices the root sequence through the path \<open>""\<close>).
  Only own properties are read (early versions of the package also read inherited ones;
  a key that names a member of a prototype, such as \<open>constructor\<close>, is outside this
  development there). Assigning to a property of \<open>null\<close>, \<open>undefined\<close> or a
  primitive raises a \<open>TypeError\<close>, the package being strict-mode code. Every definition of this
  section is part of that model; the code of the repository starts with the change codec.
\<close>

fun split_dot :: "string \<Rightarrow> string list" where
  "split_dot [] = [[]]"
| "split_dot (c # cs) =
     (if c = CHR ''.'' then [] # split_dot cs
      else (case split_dot cs of [] \<Rightarrow> [[c]] | s # ss \<Rightarrow> (c # s) # ss))"

definition path_segments :: "string \<Rightarrow> string list" where
  "path_segments p = (if p = [] then [] else split_dot p)"

definition is_digit :: "char \<Rightarrow> bool" where
  "is_digit c = (c \<in> set ''0123456789'')"

definition canonical_nat :: "string \<Rightarrow> bool" where
  "canonical_nat s = (s \<noteq> [] \<and> list_all is_digit s \<and> (hd s \<noteq> CHR ''0'' \<or> s = ''0''))"

definition decimal :: "string \<Rightarrow> nat" where
  "decimal s = foldl (\<lambda>n c. 10 * n + (of_char c - 48)) 0 s"

text \<open>
  \<open>getKey\<close>: a segment is a number when printing the integer parsed from it gives the
  segment back (\<open>parseInt(key).toString() === key\<close>), that is when it is a decimal
  numeral without sign or leading zero, or such a numeral other than 0 after a minus
  sign. (Numerals beyond the 53 bits of a double are outside this development.)
\<close>

definition getKey :: "string \<Rightarrow> int option" where
  "getKey s =
     (if canonical_nat s then Some (int (decimal s))
      else (case s of
              [] \<Rightarrow> None
            | c # t \<Rightarrow> if c = CHR ''-'' \<and> canonical_nat t \<and> t \<noteq> ''0''
                       then Some (- int (decimal t)) else None))"

text \<open>
  The segment \<open>NaN\<close> passes the same test (\<open>parseInt\<close> gives \<open>NaN\<close>, which
  prints as \<open>NaN\<close>), so it is a number for \<open>typeof\<close>, though no index.
\<close>

definition numeric_key :: "string \<Rightarrow> bool" where
  "numeric_key k = (getKey k \<noteq> None \<or> k = ''NaN'')"

text \<open>The own property \<open>obj[k]\<close> of a value, \<open>None\<close> when there is none.\<close>

fun own_prop :: "json \<Rightarrow> string \<Rightarrow> json option" where
  "own_prop (JObj m) k = fmlookup m k"
| "own_prop (JArr xs) k =
     (case getKey k of
        Some n \<Rightarrow> if 0 \<le> n \<and> nat n < length xs then Some (xs ! nat n) else None
      | None \<Rightarrow> if k = ''length'' then Some (JNum (int (length xs))) else None)"
| "own_prop (JStr s) k =
     (case getKey k of
        Some n \<Rightarrow> if 0 \<le> n \<and> nat n < length s then Some (JStr [s ! nat n]) else None
      | None \<Rightarrow> if k = ''length'' then Some (JNum (int (length s))) else None)"
| "own_prop JNull k = None"
| "own_prop (JBool b) k = None"
| "own_prop (JNum n) k = None"

text \<open>
  The assignment \<open>obj[k] = x\<close>. On an object that has no own property
  \<open>__proto__\<close> the assignment to that name reaches the prototype and creates no
  property, which is outside the values of this development.
\<close>

fun assign :: "json \<Rightarrow> string \<Rightarrow> json \<Rightarrow> error + json" where
  "assign (JObj m) k x =
     (if k = ''__proto__'' \<and> fmlookup m k = None then Inl Unmodelled
      else Inr (JObj (fmupd k x m)))"
| "assign (JArr xs) k x =
     (case getKey k of
        Some n \<Rightarrow>
          if 0 \<le> n \<and> nat n < length xs then Inr (JArr (xs[nat n := x]))
          else if n = int (length xs) then Inr (JArr (xs @ [x]))
          else Inl Unmodelled
      | None \<Rightarrow> Inl Unmodelled)"
| "assign JNull k x = Inl TypeError"
| "assign (JBool b) k x = Inl TypeError"
| "assign (JNum n) k x = Inl TypeError"
| "assign (JStr s) k x = Inl TypeError"

text \<open>
  A child object that the library has changed in place is still the child of its parent;
  in a model of immutable values the changed child is put back where it was.
\<close>

fun replace_child :: "json \<Rightarrow> string \<Rightarrow> json \<Rightarrow> json" where
  "replace_child (JObj m) k c = JObj (fmupd k c m)"
| "replace_child (JArr xs) k c =
     (case getKey k of
        Some n \<Rightarrow> if 0 \<le> n \<and> nat n < length xs then JArr (xs[nat n := c]) else JArr xs
      | None \<Rightarrow> JArr xs)"
| "replace_child JNull k c = JNull"
| "replace_child (JBool b) k c = JBool b"
| "replace_child (JNum n) k c = JNum n"
| "replace_child (JStr s) k c = JStr s"

text \<open>\<open>objectPath.get(obj, path)\<close>.\<close>

fun get_in :: "json \<Rightarrow> string \<Rightarrow> string list \<Rightarrow> json option" where
  "get_in obj k [] = own_prop obj k"
| "get_in obj k (k' # ks) =
     (case own_prop obj k of None \<Rightarrow> None | Some c \<Rightarrow> get_in c k' ks)"

definition objectPath_get :: "json option \<Rightarrow> string \<Rightarrow> json option" where
  "objectPath_get obj path =
     (case path_segments path of
        [] \<Rightarrow> obj
      | k # ks \<Rightarrow> (case obj of None \<Rightarrow> None | Some v \<Rightarrow> get_in v k ks))"

text \<open>
  \<open>objectPath.set(obj, path, value)\<close>. A missing intermediate position is created first,
  as an array when the next segment is a number and as an object otherwise, and the walk
  goes on inside it.
\<close>

fun set_in :: "json \<Rightarrow> string \<Rightarrow> string list \<Rightarrow> json \<Rightarrow> error + json" where
  "set_in obj k [] x = assign obj k x"
| "set_in obj k (k' # ks) x =
     (case own_prop obj k of
        None \<Rightarrow>
          (let fresh = (if numeric_key k' then JArr [] else JObj fmempty) in
           case assign obj k fresh of
             Inl e \<Rightarrow> Inl e
           | Inr obj1 \<Rightarrow>
               (case set_in fresh k' ks x of
                  Inl e \<Rightarrow> Inl e
                | Inr c \<Rightarrow> Inr (replace_child obj1 k c)))
      | Some c \<Rightarrow>
          (case set_in c k' ks x of
             Inl e \<Rightarrow> Inl e
           | Inr c' \<Rightarrow> Inr (replace_child obj k c')))"

definition objectPath_set :: "json option \<Rightarrow> string \<Rightarrow> json option \<Rightarrow> error + json option" where
  "objectPath_set obj path x =
     (case path_segments path of
        [] \<Rightarrow> Inr obj
      | k # ks \<Rightarrow>
          (case obj of
             None \<Rightarrow> Inl TypeError
           | Some v \<Rightarrow>
               (case x of
                  None \<Rightarrow> Inl Unmodelled
                | Some xv \<Rightarrow>
                    (case set_in v k ks xv of Inl e \<Rightarrow> Inl e | Inr v' \<Rightarrow> Inr (Some v')))))"

text \<open>
  \<open>objectPath.del(obj, path)\<close>: an element of an array is removed with
  \<open>splice(k, 1)\<close>, a key of an object with \<open>delete\<close>. Where the position is absent
  nothing is removed; for an array and a negative number or \<open>NaN\<close> the versions of the
  package differ (the later ones call \<open>splice\<close> all the same), so that case is left
  open.
\<close>

fun remove :: "json \<Rightarrow> string \<Rightarrow> error + json" where
  "remove (JObj m) k = Inr (JObj (fmdrop k m))"
| "remove (JArr xs) k =
     (case getKey k of
        Some n \<Rightarrow>
          if 0 \<le> n \<and> nat n < length xs then Inr (JArr (take (nat n) xs @ drop (Suc (nat n)) xs))
          else Inl Unmodelled
      | None \<Rightarrow> Inl Unmodelled)"
| "remove (JStr s) k = Inl TypeError"
| "remove JNull k = Inr JNull"
| "remove (JBool b) k = Inr (JBool b)"
| "remove (JNum n) k = Inr (JNum n)"

fun remove_absent :: "json \<Rightarrow> string \<Rightarrow> error + json" where
  "remove_absent (JArr xs) k =
     (if k = ''NaN'' \<or> (case getKey k of Some n \<Rightarrow> n < 0 | None \<Rightarrow> False)
      then Inl Unmodelled else Inr (JArr xs))"
| "remove_absent (JObj m) k = Inr (JObj m)"
| "remove_absent (JStr s) k = Inr (JStr s)"
| "remove_absent JNull k = Inr JNull"
| "remove_absent (JBool b) k = Inr (JBool b)"
| "remove_absent (JNum n) k = Inr (JNum n)"

fun del_in :: "json \<Rightarrow> string \<Rightarrow> string list \<Rightarrow> error + json" where
  "del_in obj k [] =
     (case own_prop obj k of None \<Rightarrow> remove_absent obj k | Some c \<Rightarrow> remove obj k)"
| "del_in obj k (k' # ks) =
     (case own_prop obj k of
        None \<Rightarrow> Inr obj
      | Some c \<Rightarrow>
          (case del_in c k' ks of
             Inl e \<Rightarrow> Inl e
           | Inr c' \<Rightarrow> Inr (replace_child obj k c')))"

definition objectPath_del :: "json option \<Rightarrow> string \<Rightarrow> error + json option" where
  "objectPath_del obj path =
     (case obj of
        None \<Rightarrow> Inr None
      | Some v \<Rightarrow>
          (case path_segments path of
             [] \<Rightarrow> Inr obj
           | k # ks \<Rightarrow> (case del_in v k ks of Inl e \<Rightarrow> Inl e | Inr v' \<Rightarrow> Inr (Some v'))))"

section \<open>The change codec\<close>

text \<open>
  A change is a record with a \<open>type\<close> tag (\<open>src/server.js\<close>, lines 16 to 36 and 192
  to 230). The fields, in the order of the constructors' arguments:
  \<^item> \<open>Add path newValue\<close>
  \<^item> \<open>Update path oldValue newValue\<close>
  \<^item> \<open>Splice path index removed removedCount added addedCount\<close>
  \<^item> \<open>Delete path oldValue\<close>
  \<^item> \<open>Other type path\<close>, a record of any other type, which both directions skip.
\<close>

datatype change =
    Add string "json option"
  | Update string "json option" "json option"
  | Splice string int "json list" int "json list" int
  | Delete string "json option"
  | Other string string

text \<open>
  \<open>Array.prototype.splice.apply(arr, [index, deleteCount, item, ...])\<close> on an array: a
  negative index counts from the end, the start is clamped to the array, and the count
  to what is left after the start.
\<close>

definition js_splice :: "json list \<Rightarrow> int \<Rightarrow> int \<Rightarrow> json list \<Rightarrow> json list" where
  "js_splice xs index deleteCount items =
     (let len = int (length xs);
          start = (if index < 0 then max (len + index) 0 else min index len);
          dc = min (max deleteCount 0) (len - start)
      in take (nat start) xs @ items @ drop (nat (start + dc)) xs)"

text \<open>
  The array that \<open>splice\<close> changes is the object that sits at the path, so the value
  already holds the new elements when \<open>objectPath.set\<close> stores the array again (for
  the empty path that \<open>set\<close> does nothing, and the change in place is all there is).
\<close>

fun put_in :: "json \<Rightarrow> string \<Rightarrow> string list \<Rightarrow> json \<Rightarrow> json" where
  "put_in obj k [] x = replace_child obj k x"
| "put_in obj k (k' # ks) x =
     (case own_prop obj k of None \<Rightarrow> obj | Some c \<Rightarrow> replace_child obj k (put_in c k' ks x))"

definition changed_in_place :: "json option \<Rightarrow> string \<Rightarrow> json \<Rightarrow> json option" where
  "changed_in_place obj path x =
     (case path_segments path of
        [] \<Rightarrow> Some x
      | k # ks \<Rightarrow> (case obj of None \<Rightarrow> None | Some v \<Rightarrow> Some (put_in v k ks x)))"

text \<open>
  The splice branch of both directions (\<open>src/server.js\<close>, lines 23 to 32 and 54 to 63):
  read the position, take the empty array when what is there is falsy, splice, store.
  On a truthy number or boolean \<open>splice\<close> works on a wrapper object and the primitive
  is stored back as it was; on a string it raises, since the length of a string cannot be
  written.
\<close>

definition splice_at ::
  "json option \<Rightarrow> string \<Rightarrow> int \<Rightarrow> int \<Rightarrow> json list \<Rightarrow> error + json option" where
  "splice_at v path index deleteCount items =
     (let arr = objectPath_get v path in
      if falsy arr then objectPath_set v path (Some (JArr (js_splice [] index deleteCount items)))
      else (case arr of
              Some (JArr xs) \<Rightarrow>
                (let arr' = JArr (js_splice xs index deleteCount items)
                 in objectPath_set (changed_in_place v path arr') path (Some arr'))
            | Some (JStr s) \<Rightarrow> Inl TypeError
            | Some (JObj m) \<Rightarrow> Inl Unmodelled
            | _ \<Rightarrow> objectPath_set v path arr))"

text \<open>
  \<open>applyChanges\<close> and \<open>reverseChanges\<close> (\<open>src/server.js\<close>, lines 11 to 71, and the
  same text in \<open>src/client.js\<close>). Both work on deep copies made by \<open>clone\<close>; values
  here cannot be changed, so the copy is the value itself and the inputs stay what they
  were. \<open>forEach\<close> is the loop over the changes, which ends where a change raises.
\<close>

fun forEach :: "('s \<Rightarrow> 'a \<Rightarrow> error + 's) \<Rightarrow> 'a list \<Rightarrow> 's \<Rightarrow> error + 's" where
  "forEach f [] s = Inr s"
| "forEach f (x # xs) s = (case f s x of Inl e \<Rightarrow> Inl e | Inr s' \<Rightarrow> forEach f xs s')"

fun applyChange :: "json option \<Rightarrow> change \<Rightarrow> error + json option" where
  "applyChange newValue (Add path nv) = objectPath_set newValue path nv"
| "applyChange newValue (Update path ov nv) = objectPath_set newValue path nv"
| "applyChange newValue (Splice path index removed removedCount added addedCount) =
     splice_at newValue path index removedCount added"
| "applyChange newValue (Delete path ov) = objectPath_del newValue path"
| "applyChange newValue (Other t path) = Inr newValue"

definition applyChanges :: "json option \<Rightarrow> change list \<Rightarrow> error + json option" where
  "applyChanges startValue changes = forEach applyChange changes startValue"

fun reverseChange :: "json option \<Rightarrow> change \<Rightarrow> error + json option" where
  "reverseChange oldValue (Add path nv) = objectPath_del oldValue path"
| "reverseChange oldValue (Update path ov nv) = objectPath_set oldValue path ov"
| "reverseChange oldValue (Splice path index removed removedCount added addedCount) =
     splice_at oldValue path index addedCount removed"
| "reverseChange oldValue (Delete path ov) = objectPath_set oldValue path ov"
| "reverseChange oldValue (Other t path) = Inr oldValue"

definition reverseChanges :: "json option \<Rightarrow> change list \<Rightarrow> error + json option" where
  "reverseChanges startValue changes = forEach reverseChange (rev changes) startValue"

section \<open>Revision labels and replicants\<close>

text \<open>
  A revision label is \<open>hash.sha1({num: _revisionNum, value: value})\<close>, the getter
  \<open>revision\<close> of both classes. The hash function is a dependency; it is the parameter
  \<open>H\<close> of everything below, and labels are values of any type \<open>'l\<close> that are only
  compared. An entry of a revision history is a label or \<open>undefined\<close>, and reading an
  array beyond its end gives \<open>undefined\<close>.
\<close>

definition nth_or_undefined :: "'a option list \<Rightarrow> nat \<Rightarrow> 'a option" where
  "nth_or_undefined xs i = (if i < length xs then xs ! i else None)"

text \<open>
  The fields of a \<open>Replicant\<close> that both sides have: \<open>val\<close> is \<open>_value\<close>,
  \<open>updating\<close> is \<open>_updating\<close>, \<open>revisionNum\<close> is \<open>_revisionNum\<close>. The server
  replicant reaches \<open>roomPrefix\<close> through its replicator; the client replicant has the
  flag \<open>ready\<close>.
\<close>

record 'l replicant =
  name :: string
  updating :: bool
  revisionNum :: nat
  revisionHistory :: "'l option list"
  val :: "json option"

record 'l server_replicant = "'l replicant" +
  roomPrefix :: string

record 'l client_replicant = "'l replicant" +
  ready :: bool

definition revision :: "(nat \<Rightarrow> json option \<Rightarrow> 'l) \<Rightarrow> ('l, 'z) replicant_scheme \<Rightarrow> 'l" where
  "revision H r = H (revisionNum r) (val r)"

text \<open>
  For the evaluation of examples the label of a pair is the pair itself, a hash without
  collisions.
\<close>

definition pair_label :: "nat \<Rightarrow> json option \<Rightarrow> nat \<times> json option" where
  "pair_label n v = (n, v)"

text \<open>
  What a handler sends, in order: acknowledgements and callbacks to the sender, multicasts
  to the room of the replicant (server), messages to the server and the local event
  \<open>ready\<close> (client).
\<close>

datatype 'l message =
    Acknowledge bool
  | Callback "'l option list" "json option"
  | RoomSet string string "'l option list" "json option"
  | RoomChanged string string "'l option list" "change list"
  | ReplicantRegister string
  | ReplicantGet string
  | ReplicantSet string "'l option list" "json option"
  | ReplicantChanged string "'l option list" "change list"
  | Ready

text \<open>
  The first argument of \<open>RoomSet\<close> and \<open>RoomChanged\<close> is the room,
  \<open>roomPrefix + name\<close>; the others are the arguments of the message.

  The branch of the setter \<open>set value\<close> that runs while \<open>_updating\<close> is set stores the
  value. (It also moves the deep observer from the old value to the new one, which changes
  no field.)
\<close>

definition store_value :: "('l, 'z) replicant_scheme \<Rightarrow> json option \<Rightarrow> ('l, 'z) replicant_scheme" where
  "store_value r newValue = r\<lparr>val := newValue\<rparr>"

subsection \<open>The observer callback's change records\<close>

text \<open>
  A raw change of the deep observer, as \<open>onChange\<close> reads it (\<open>src/server.js\<close>, lines
  188 to 231): \<open>type\<close>, \<open>path\<close> with \<open>/\<close> before every segment, \<open>root\<close>,
  \<open>oldValue\<close>, and for a splice \<open>index\<close>, \<open>removed\<close>, \<open>addedCount\<close> and the array
  \<open>object\<close>.
\<close>

record raw_change =
  raw_type :: string
  raw_path :: string
  raw_root :: "json option"
  raw_oldValue :: "json option"
  raw_index :: int
  raw_removed :: "json list"
  raw_addedCount :: int
  raw_object :: "json list"

text \<open>\<open>Array.prototype.slice(from, to)\<close>.\<close>

definition js_slice :: "'a list \<Rightarrow> int \<Rightarrow> int \<Rightarrow> 'a list" where
  "js_slice xs from to =
     (let len = int (length xs);
          k = (if from < 0 then max (len + from) 0 else min from len);
          final = (if to < 0 then max (len + to) 0 else min to len)
      in take (nat (final - k)) (drop (nat k) xs))"

definition formatChange :: "raw_change \<Rightarrow> change" where
  "formatChange c =
     (let path = map (\<lambda>ch. if ch = CHR ''/'' then CHR ''.'' else ch) (drop 1 (raw_path c));
          newVal = objectPath_get (raw_root c) path
      in if raw_type c = ''add'' then Add path newVal
         else if raw_type c = ''update'' then Update path (raw_oldValue c) newVal
         else if raw_type c = ''splice'' then
           Splice path (raw_index c) (raw_removed c) (int (length (raw_removed c)))
             (js_slice (raw_object c) (raw_index c) (raw_index c + raw_addedCount c))
             (raw_addedCount c)
         else if raw_type c = ''delete'' then Delete path (raw_oldValue c)
         else Other (raw_type c) path)"

subsection \<open>The server replicant\<close>

text \<open>
  A handler returns the replicant, what it sent, and the exception that ended it, if one
  did: \<open>applyChanges\<close> and \<open>reverseChanges\<close> can raise, and then what was sent
  before stays sent.
\<close>

definition server_Replicant :: "string \<Rightarrow> string \<Rightarrow> 'l server_replicant" where
  "server_Replicant prefix nm =
     \<lparr>name = nm, updating = False, revisionNum = 0, revisionHistory = [], val = None,
      roomPrefix = prefix\<rparr>"

text \<open>
  \<open>pushChanges\<close> (\<open>src/server.js\<close>, lines 266 to 279). The assignment
  \<open>this.value = newValue\<close> runs the setter while \<open>_updating\<close> is set, which stores.
  An array of changes is truthy also when it is empty; \<open>None\<close> is \<open>null\<close>.
\<close>

definition server_pushChanges ::
  "(nat \<Rightarrow> json option \<Rightarrow> 'l) \<Rightarrow> 'l server_replicant \<Rightarrow> json option \<Rightarrow> json option \<Rightarrow>
   change list option \<Rightarrow> 'l server_replicant \<times> 'l message list" where
  "server_pushChanges H r oldValue newValue changes =
     (let r1 = r\<lparr>updating := True\<rparr>;
          r2 = store_value r1 newValue;
          r3 = r2\<lparr>revisionNum := revisionNum r2 + 1\<rparr>;
          r4 = r3\<lparr>revisionHistory := Some (revision H r3) # revisionHistory r3\<rparr>;
          r5 = r4\<lparr>updating := False\<rparr>
      in (r5,
          [case changes of
             Some cs \<Rightarrow> RoomChanged (roomPrefix r5 @ name r5) (name r5) (revisionHistory r5) cs
           | None \<Rightarrow> RoomSet (roomPrefix r5 @ name r5) (name r5) (revisionHistory r5) newValue]))"

definition server_set_value ::
  "(nat \<Rightarrow> json option \<Rightarrow> 'l) \<Rightarrow> 'l server_replicant \<Rightarrow> json option \<Rightarrow>
   'l server_replicant \<times> 'l message list" where
  "server_set_value H r newValue =
     (if \<not> updating r then server_pushChanges H r (val r) newValue None
      else (store_value r newValue, []))"

definition server_onChange ::
  "(nat \<Rightarrow> json option \<Rightarrow> 'l) \<Rightarrow> 'l server_replicant \<Rightarrow> raw_change list \<Rightarrow>
   'l server_replicant \<times> 'l message list \<times> error option" where
  "server_onChange H r rawChanges =
     (if \<not> updating r then
        (let formattedChanges = map formatChange rawChanges in
         case reverseChanges (val r) formattedChanges of
           Inl e \<Rightarrow> (r, [], Some e)
         | Inr oldValue \<Rightarrow>
             (case server_pushChanges H r oldValue (val r) (Some formattedChanges) of
                (r', ms) \<Rightarrow> (r', ms, None)))
      else (r, [], None))"

definition onClientGet :: "'l server_replicant \<Rightarrow> 'l server_replicant \<times> 'l message list" where
  "onClientGet r = (r, [Callback (revisionHistory r) (val r)])"

text \<open>
  \<open>onClientSet\<close> (lines 243 to 253): \<open>indexOf\<close> compares with \<open>===\<close>, and what it
  looks for is \<open>this.revisionHistory[0]\<close>, which is \<open>undefined\<close> for an empty history.
\<close>

definition onClientSet ::
  "(nat \<Rightarrow> json option \<Rightarrow> 'l) \<Rightarrow> 'l server_replicant \<Rightarrow> 'l option list \<Rightarrow> json option \<Rightarrow>
   'l server_replicant \<times> 'l message list \<times> error option" where
  "onClientSet H r clientHistory newValue =
     (if nth_or_undefined (revisionHistory r) 0 \<in> set clientHistory then
        (let r1 = r\<lparr>revisionHistory := drop 1 clientHistory\<rparr>;
             r2 = r1\<lparr>revisionNum := length (revisionHistory r1)\<rparr>
         in case server_pushChanges H r2 (val r2) newValue None of
              (r', ms) \<Rightarrow> (r', Acknowledge True # ms, None))
      else (r, [Acknowledge False], None))"

text \<open>\<open>onClientChange\<close> (lines 255 to 264).\<close>

definition onClientChange ::
  "(nat \<Rightarrow> json option \<Rightarrow> 'l) \<Rightarrow> 'l server_replicant \<Rightarrow> 'l option list \<Rightarrow> change list \<Rightarrow>
   'l server_replicant \<times> 'l message list \<times> error option" where
  "onClientChange H r clientHistory changes =
     (if nth_or_undefined clientHistory 1 = nth_or_undefined (revisionHistory r) 0 then
        (case applyChanges (val r) changes of
           Inl e \<Rightarrow> (r, [Acknowledge True], Some e)
         | Inr newValue \<Rightarrow>
             (case server_pushChanges H r (val r) newValue (Some changes) of
                (r', ms) \<Rightarrow> (r', Acknowledge True # ms, None)))
      else (r, [Acknowledge False], None))"

subsection \<open>The client replicant\<close>

text \<open>
  The constructor sends \<open>replicantRegister\<close>; when the server acknowledges, the callback
  calls \<open>synchronize\<close>, sets \<open>ready\<close> and emits the event (\<open>src/client.js\<close>, lines
  118 to 133).
\<close>

definition client_Replicant :: "string \<Rightarrow> 'l client_replicant \<times> 'l message list" where
  "client_Replicant nm =
     (\<lparr>name = nm, updating = False, revisionNum = 0, revisionHistory = [], val = None,
       ready = False\<rparr>,
      [ReplicantRegister nm])"

definition synchronize :: "'l client_replicant \<Rightarrow> 'l client_replicant \<times> 'l message list" where
  "synchronize r = (r, [ReplicantGet (name r)])"

definition registered :: "'l client_replicant \<Rightarrow> 'l client_replicant \<times> 'l message list" where
  "registered r = (case synchronize r of (r1, ms) \<Rightarrow> (r1\<lparr>ready := True\<rparr>, ms @ [Ready]))"

text \<open>
  The callback of \<open>replicantGet\<close> in \<open>synchronize\<close> (lines 272 to 278) and
  \<open>onServerSet\<close> (lines 226 to 232) run the same four statements.
\<close>

definition overwrite :: "'l client_replicant \<Rightarrow> 'l option list \<Rightarrow> json option \<Rightarrow> 'l client_replicant" where
  "overwrite r history v =
     (let r1 = r\<lparr>updating := True\<rparr>;
          r2 = store_value r1 v;
          r3 = r2\<lparr>revisionHistory := history\<rparr>;
          r4 = r3\<lparr>revisionNum := length history\<rparr>
      in r4\<lparr>updating := False\<rparr>)"

definition synchronize_reply ::
  "'l client_replicant \<Rightarrow> 'l option list \<Rightarrow> json option \<Rightarrow> 'l client_replicant" where
  "synchronize_reply r history v = overwrite r history v"

definition onServerSet ::
  "'l client_replicant \<Rightarrow> 'l option list \<Rightarrow> json option \<Rightarrow> 'l client_replicant" where
  "onServerSet r history newValue = overwrite r history newValue"

text \<open>\<open>onServerChange\<close> (lines 234 to 247).\<close>

definition onServerChange ::
  "(nat \<Rightarrow> json option \<Rightarrow> 'l) \<Rightarrow> 'l client_replicant \<Rightarrow> 'l option list \<Rightarrow> change list \<Rightarrow>
   'l client_replicant \<times> 'l message list \<times> error option" where
  "onServerChange H r history changes =
     (if Some (revision H r) = nth_or_undefined history 1 then
        (case applyChanges (val r) changes of
           Inl e \<Rightarrow> (r, [], Some e)
         | Inr newValue \<Rightarrow> (overwrite r history newValue, [], None))
      else (case synchronize r of (r', ms) \<Rightarrow> (r', ms, None)))"

text \<open>
  \<open>pushChanges\<close> of the client (lines 249 to 268) stores nothing. The two
  acknowledgement callbacks are functions of their own: they run when the server answers.
\<close>

definition client_pushChanges ::
  "(nat \<Rightarrow> json option \<Rightarrow> 'l) \<Rightarrow> 'l client_replicant \<Rightarrow> json option \<Rightarrow> json option \<Rightarrow>
   change list option \<Rightarrow> 'l client_replicant \<times> 'l message list" where
  "client_pushChanges H r oldValue newValue changes =
     (let r1 = r\<lparr>revisionNum := revisionNum r + 1\<rparr>;
          r2 = r1\<lparr>revisionHistory := Some (revision H r1) # revisionHistory r1\<rparr>
      in (r2,
          [case changes of
             Some cs \<Rightarrow> ReplicantChanged (name r2) (revisionHistory r2) cs
           | None \<Rightarrow> ReplicantSet (name r2) (revisionHistory r2) newValue]))"

definition changed_acknowledged ::
  "'l client_replicant \<Rightarrow> json option \<Rightarrow> bool \<Rightarrow> 'l client_replicant \<times> 'l message list" where
  "changed_acknowledged r newValue success =
     (if \<not> success then (r, [ReplicantSet (name r) (revisionHistory r) newValue]) else (r, []))"

definition set_acknowledged ::
  "'l client_replicant \<Rightarrow> bool \<Rightarrow> 'l client_replicant \<times> 'l message list" where
  "set_acknowledged r success = (if \<not> success then synchronize r else (r, []))"

definition client_set_value ::
  "(nat \<Rightarrow> json option \<Rightarrow> 'l) \<Rightarrow> 'l client_replicant \<Rightarrow> json option \<Rightarrow>
   'l client_replicant \<times> 'l message list" where
  "client_set_value H r newValue =
     (if \<not> updating r then client_pushChanges H r (val r) newValue None
      else (store_value r newValue, []))"

definition client_onChange ::
  "(nat \<Rightarrow> json option \<Rightarrow> 'l) \<Rightarrow> 'l client_replicant \<Rightarrow> raw_change list \<Rightarrow>
   'l client_replicant \<times> 'l message list \<times> error option" where
  "client_onChange H r rawChanges =
     (if \<not> updating r then
        (let formattedChanges = map formatChange rawChanges in
         case reverseChanges (val r) formattedChanges of
           Inl e \<Rightarrow> (r, [], Some e)
         | Inr oldValue \<Rightarrow>
             (case client_pushChanges H r oldValue (val r) (Some formattedChanges) of
                (r', ms) \<Rightarrow> (r', ms, None)))
      else (r, [], None))"

section \<open>Outcomes, invariants and examples\<close>

text \<open>The three parts of what a handler returns.\<close>

definition state_of :: "'s \<times> 'm list \<times> error option \<Rightarrow> 's" where
  "state_of out = fst out"

definition sent :: "'s \<times> 'm list \<times> error option \<Rightarrow> 'm list" where
  "sent out = fst (snd out)"

definition raised :: "'s \<times> 'm list \<times> error option \<Rightarrow> error option" where
  "raised out = snd (snd out)"

text \<open>The two invariants of section 3 of the spec, as predicates of a replicant.\<close>

definition seq_inv :: "('l, 'z) replicant_scheme \<Rightarrow> bool" where
  "seq_inv r = (revisionNum r = length (revisionHistory r))"

definition label_inv :: "(nat \<Rightarrow> json option \<Rightarrow> 'l) \<Rightarrow> ('l, 'z) replicant_scheme \<Rightarrow> bool" where
  "label_inv H r = (nth_or_undefined (revisionHistory r) 0 = Some (revision H r))"

text \<open>
  Scenario 3 of the spec: the server replicant \<open>z\<close> with the value \<open>{n: 2}\<close> and a
  history of two labels.
\<close>

definition doc_n :: "int \<Rightarrow> json option" where
  "doc_n k = Some (JObj (fmupd ''n'' (JNum k) fmempty))"

definition replicant_z :: "(nat \<times> json option) server_replicant" where
  "replicant_z =
     \<lparr>name = ''z'', updating = False, revisionNum = 2,
      revisionHistory = [Some (pair_label 2 (doc_n 2)), Some (pair_label 1 (doc_n 1))],
      val = doc_n 2, roomPrefix = ''replicants/''\<rparr>"

text \<open>
  A client replicant \<open>w\<close> that holds \<open>{n: 2}\<close> at the revision the server replicant
  \<open>z\<close> is at, and the label of a revision the server never had.
\<close>

definition replicant_w :: "(nat \<times> json option) client_replicant" where
  "replicant_w =
     \<lparr>name = ''w'', updating = False, revisionNum = 2,
      revisionHistory = [Some (pair_label 2 (doc_n 2)), Some (pair_label 1 (doc_n 1))],
      val = doc_n 2, ready = True\<rparr>"

definition stale_label :: "(nat \<times> json option) option" where
  "stale_label = Some (pair_label 0 None)"

text \<open>The client replicant \<open>x\<close> as its constructor leaves it.\<close>

definition replicant_x :: "(nat \<times> json option) client_replicant" where
  "replicant_x = fst (client_Replicant ''x'')"

section \<open>Well-formed changes\<close>

text \<open>Objects and arrays are the values that have slots.\<close>

definition is_container :: "json \<Rightarrow> bool" where
  "is_container v = (case v of JObj m \<Rightarrow> True | JArr xs \<Rightarrow> True | _ \<Rightarrow> False)"

text \<open>
  The slot \<open>k\<close> of a container: a key of an object, an index of an array within its
  length. (\<open>own_prop\<close> also reads \<open>length\<close> and the characters of a string, which are
  no slots.)
\<close>

fun slot :: "json \<Rightarrow> string \<Rightarrow> json option" where
  "slot (JObj m) k = fmlookup m k"
| "slot (JArr xs) k =
     (case getKey k of
        Some n \<Rightarrow> if 0 \<le> n \<and> nat n < length xs then Some (xs ! nat n) else None
      | None \<Rightarrow> None)"
| "slot JNull k = None"
| "slot (JBool b) k = None"
| "slot (JNum n) k = None"
| "slot (JStr s) k = None"

text \<open>
  The container in which a path ends, reached through slots that exist, and the last
  segment of the path.
\<close>

fun parent_in :: "json \<Rightarrow> string \<Rightarrow> string list \<Rightarrow> (json \<times> string) option" where
  "parent_in obj k [] = (if is_container obj then Some (obj, k) else None)"
| "parent_in obj k (k' # ks) =
     (case slot obj k of None \<Rightarrow> None | Some c \<Rightarrow> parent_in c k' ks)"

definition parent_of :: "json option \<Rightarrow> string \<Rightarrow> (json \<times> string) option" where
  "parent_of v path =
     (case path_segments path of
        [] \<Rightarrow> None
      | k # ks \<Rightarrow> (case v of None \<Rightarrow> None | Some obj \<Rightarrow> parent_in obj k ks))"
















text \<open>
  The record of an assignment carries the final value when its \<open>newValue\<close> is the
  defined value that the position holds in the value the burst has led to.
\<close>

definition holds :: "json option \<Rightarrow> string \<Rightarrow> json option \<Rightarrow> bool" where
  "holds v path x =
     (x \<noteq> None \<and> (case parent_of v path of None \<Rightarrow> False | Some (p, kl) \<Rightarrow> slot p kl = x))"















section \<open>Facts about the handlers\<close>

lemma outcome_simps:
  "state_of (s, ms, e) = s" "sent (s, ms, e) = ms" "raised (s, ms, e) = e"
  by (simp_all add: state_of_def sent_def raised_def)

lemmas path_simps =
  path_segments_def getKey_def numeric_key_def canonical_nat_def is_digit_def decimal_def

lemma server_pushChanges_eq:
  "server_pushChanges H r ov nv cs =
     (r\<lparr>updating := False, revisionNum := revisionNum r + 1,
        revisionHistory := Some (H (revisionNum r + 1) nv) # revisionHistory r, val := nv\<rparr>,
      [case cs of
         Some c \<Rightarrow> RoomChanged (roomPrefix r @ name r) (name r)
                     (Some (H (revisionNum r + 1) nv) # revisionHistory r) c
       | None \<Rightarrow> RoomSet (roomPrefix r @ name r) (name r)
                     (Some (H (revisionNum r + 1) nv) # revisionHistory r) nv])"
  by (cases cs) (simp_all add: server_pushChanges_def store_value_def revision_def Let_def)

lemma client_pushChanges_eq:
  "client_pushChanges H r ov nv cs =
     (r\<lparr>revisionNum := revisionNum r + 1,
        revisionHistory := Some (H (revisionNum r + 1) (val r)) # revisionHistory r\<rparr>,
      [case cs of
         Some c \<Rightarrow> ReplicantChanged (name r)
                     (Some (H (revisionNum r + 1) (val r)) # revisionHistory r) c
       | None \<Rightarrow> ReplicantSet (name r)
                     (Some (H (revisionNum r + 1) (val r)) # revisionHistory r) nv])"
  by (cases cs) (simp_all add: client_pushChanges_def revision_def Let_def)

text \<open>
  Inside \<open>pushChanges\<close> of the server and inside the handlers that overwrite, the
  assignment to \<open>value\<close> runs the setter with the flag set, which is \<open>store_value\<close>.
\<close>

lemma setter_while_updating:
  "updating r \<Longrightarrow> server_set_value H r v = (store_value r v, [])"
  "updating c \<Longrightarrow> client_set_value H c v = (store_value c v, [])"
  by (simp_all add: server_set_value_def client_set_value_def)

lemma overwrite_eq:
  "overwrite r h v =
     r\<lparr>updating := False, revisionNum := length h, revisionHistory := h, val := v\<rparr>"
  by (simp add: overwrite_def store_value_def Let_def)

lemma server_onChange_cases:
  "server_onChange H r raw =
     (if updating r then (r, [], None)
      else (case reverseChanges (val r) (map formatChange raw) of
              Inl e \<Rightarrow> (r, [], Some e)
            | Inr ov \<Rightarrow> (fst (server_pushChanges H r ov (val r) (Some (map formatChange raw))),
                        snd (server_pushChanges H r ov (val r) (Some (map formatChange raw))),
                        None)))"
  by (simp add: server_onChange_def Let_def split: sum.split prod.split)

lemma client_onChange_cases:
  "client_onChange H r raw =
     (if updating r then (r, [], None)
      else (case reverseChanges (val r) (map formatChange raw) of
              Inl e \<Rightarrow> (r, [], Some e)
            | Inr ov \<Rightarrow> (fst (client_pushChanges H r ov (val r) (Some (map formatChange raw))),
                        snd (client_pushChanges H r ov (val r) (Some (map formatChange raw))),
                        None)))"
  by (simp add: client_onChange_def Let_def split: sum.split prod.split)

lemma onClientChange_cases:
  "onClientChange H r h cs =
     (if nth_or_undefined h 1 = nth_or_undefined (revisionHistory r) 0 then
        (case applyChanges (val r) cs of
           Inl e \<Rightarrow> (r, [Acknowledge True], Some e)
         | Inr nv \<Rightarrow> (fst (server_pushChanges H r (val r) nv (Some cs)),
                      Acknowledge True # snd (server_pushChanges H r (val r) nv (Some cs)), None))
      else (r, [Acknowledge False], None))"
  by (simp add: onClientChange_def split: sum.split prod.split)

lemma onClientSet_cases:
  "onClientSet H r h v =
     (if nth_or_undefined (revisionHistory r) 0 \<in> set h then
        (fst (server_pushChanges H
                (r\<lparr>revisionHistory := drop 1 h, revisionNum := length (drop 1 h)\<rparr>) (val r) v None),
         Acknowledge True #
         snd (server_pushChanges H
                (r\<lparr>revisionHistory := drop 1 h, revisionNum := length (drop 1 h)\<rparr>) (val r) v None),
         None)
      else (r, [Acknowledge False], None))"
  by (simp add: onClientSet_def Let_def split: prod.split)

lemma onServerChange_cases:
  "onServerChange H r h cs =
     (if Some (revision H r) = nth_or_undefined h 1 then
        (case applyChanges (val r) cs of
           Inl e \<Rightarrow> (r, [], Some e)
         | Inr nv \<Rightarrow> (overwrite r h nv, [], None))
      else (r, [ReplicantGet (name r)], None))"
  by (simp add: onServerChange_def synchronize_def split: sum.split)

lemma seq_inv_server_push: "seq_inv r \<Longrightarrow> seq_inv (fst (server_pushChanges H r ov nv cs))"
  by (simp add: seq_inv_def server_pushChanges_eq)

lemma seq_inv_client_push: "seq_inv r \<Longrightarrow> seq_inv (fst (client_pushChanges H r ov nv cs))"
  by (simp add: seq_inv_def client_pushChanges_eq)

lemma seq_inv_overwrite: "seq_inv (overwrite r h v)"
  by (simp add: seq_inv_def overwrite_eq)

section \<open>The server's validation of inbound messages\<close>

text \<open>
  Claim C2. The server accepts an inbound \<open>replicantChanged\<close> exactly when
  \<open>clientHistory[1]\<close> is the server's \<open>revisionHistory[0]\<close>: the acknowledgement, which
  is the first thing sent, carries that truth value. On acceptance the changes are applied
  to the stored value and the result is pushed: it is stored, the sequence number goes up
  by one, the label of the new pair is put in front of the history, and the room receives
  \<open>replicantChanged\<close> with the new history and the same changes. On a mismatch the
  acknowledgement is \<open>false\<close>, the replicant is what it was and nothing else is sent.
  (\<open>applyChanges\<close> is called after the acknowledgement; on the inputs where it raises,
  the acknowledgement \<open>true\<close> is all that was sent and the replicant is unchanged.)
\<close>

theorem onClientChange_accepts_iff_parent_is_current:
  "hd (sent (onClientChange H r clientHistory changes)) =
     Acknowledge (nth_or_undefined clientHistory 1 = nth_or_undefined (revisionHistory r) 0)
   \<and> (nth_or_undefined clientHistory 1 = nth_or_undefined (revisionHistory r) 0 \<longrightarrow>
        (\<forall>newValue. applyChanges (val r) changes = Inr newValue \<longrightarrow>
           onClientChange H r clientHistory changes =
             (r\<lparr>updating := False,
                revisionNum := revisionNum r + 1,
                revisionHistory := Some (H (revisionNum r + 1) newValue) # revisionHistory r,
                val := newValue\<rparr>,
              [Acknowledge True,
               RoomChanged (roomPrefix r @ name r) (name r)
                 (Some (H (revisionNum r + 1) newValue) # revisionHistory r) changes],
              None))
        \<and> (\<forall>e. applyChanges (val r) changes = Inl e \<longrightarrow>
              onClientChange H r clientHistory changes = (r, [Acknowledge True], Some e)))
   \<and> (nth_or_undefined clientHistory 1 \<noteq> nth_or_undefined (revisionHistory r) 0 \<longrightarrow>
        onClientChange H r clientHistory changes = (r, [Acknowledge False], None))"
  by (simp add: onClientChange_def server_pushChanges_eq outcome_simps split: sum.split)

theorem onClientChange_accepts_iff_parent_is_current_witness:
  "onClientChange pair_label replicant_z
      [Some (pair_label 3 (doc_n 3)), Some (pair_label 2 (doc_n 2))]
      [Update ''n'' (Some (JNum 2)) (Some (JNum 3))] =
     (replicant_z\<lparr>revisionNum := 3,
        revisionHistory := [Some (pair_label 3 (doc_n 3)), Some (pair_label 2 (doc_n 2)),
                            Some (pair_label 1 (doc_n 1))],
        val := doc_n 3\<rparr>,
      [Acknowledge True,
       RoomChanged ''replicants/z'' ''z''
         [Some (pair_label 3 (doc_n 3)), Some (pair_label 2 (doc_n 2)),
          Some (pair_label 1 (doc_n 1))]
         [Update ''n'' (Some (JNum 2)) (Some (JNum 3))]],
      None)
   \<and> onClientChange pair_label replicant_z
        [Some (pair_label 1 (doc_n 7)), stale_label]
        [Update ''n'' (Some (JNum 0)) (Some (JNum 1))] =
       (replicant_z, [Acknowledge False], None)"
  using onClientChange_accepts_iff_parent_is_current [of pair_label replicant_z
          "[Some (pair_label 3 (doc_n 3)), Some (pair_label 2 (doc_n 2))]"
          "[Update ''n'' (Some (JNum 2)) (Some (JNum 3))]"]
        onClientChange_accepts_iff_parent_is_current [of pair_label replicant_z
          "[Some (pair_label 1 (doc_n 7)), stale_label]"
          "[Update ''n'' (Some (JNum 0)) (Some (JNum 1))]"]
  by (simp add: replicant_z_def doc_n_def pair_label_def stale_label_def nth_or_undefined_def
        applyChanges_def objectPath_set_def path_simps)

text \<open>
  Claim C5. The server accepts an inbound \<open>replicantSet\<close> exactly when the client's
  history holds, at some position, what the server has at \<open>revisionHistory[0]\<close>. On
  acceptance it acknowledges \<open>true\<close>, takes \<open>clientHistory.slice(1)\<close> as its history and
  the length of that as its sequence number, and pushes the new value: the value is
  stored, the sequence number is that length plus one, the new label stands before the
  slice, and the room receives \<open>replicantSet\<close>. Otherwise it acknowledges \<open>false\<close> and
  nothing changes.
\<close>

theorem onClientSet_accepts_iff_history_holds_current:
  "hd (sent (onClientSet H r clientHistory newValue)) =
     Acknowledge (nth_or_undefined (revisionHistory r) 0 \<in> set clientHistory)
   \<and> (nth_or_undefined (revisionHistory r) 0 \<in> set clientHistory \<longrightarrow>
        onClientSet H r clientHistory newValue =
          (case server_pushChanges H
                  (r\<lparr>revisionHistory := drop 1 clientHistory,
                     revisionNum := length (drop 1 clientHistory)\<rparr>)
                  (val r) newValue None of
             (r', ms) \<Rightarrow> (r', Acknowledge True # ms, None))
      \<and> onClientSet H r clientHistory newValue =
          (r\<lparr>updating := False,
             revisionNum := length (drop 1 clientHistory) + 1,
             revisionHistory :=
               Some (H (length (drop 1 clientHistory) + 1) newValue) # drop 1 clientHistory,
             val := newValue\<rparr>,
           [Acknowledge True,
            RoomSet (roomPrefix r @ name r) (name r)
              (Some (H (length (drop 1 clientHistory) + 1) newValue) # drop 1 clientHistory)
              newValue],
           None))
   \<and> (nth_or_undefined (revisionHistory r) 0 \<notin> set clientHistory \<longrightarrow>
        onClientSet H r clientHistory newValue = (r, [Acknowledge False], None))"
  by (simp add: onClientSet_def server_pushChanges_eq outcome_simps Let_def)

theorem onClientSet_accepts_iff_history_holds_current_witness:
  "onClientSet pair_label replicant_z
      [Some (pair_label 4 (doc_n 9)), Some (pair_label 3 (doc_n 3)), Some (pair_label 2 (doc_n 2))]
      (doc_n 9) =
     (replicant_z\<lparr>revisionNum := 3,
        revisionHistory := [Some (pair_label 3 (doc_n 9)), Some (pair_label 3 (doc_n 3)),
                            Some (pair_label 2 (doc_n 2))],
        val := doc_n 9\<rparr>,
      [Acknowledge True,
       RoomSet ''replicants/z'' ''z''
         [Some (pair_label 3 (doc_n 9)), Some (pair_label 3 (doc_n 3)),
          Some (pair_label 2 (doc_n 2))]
         (doc_n 9)],
      None)
   \<and> onClientSet pair_label replicant_z [Some (pair_label 1 (doc_n 7)), stale_label] (doc_n 9) =
       (replicant_z, [Acknowledge False], None)"
  using onClientSet_accepts_iff_history_holds_current [of pair_label replicant_z
          "[Some (pair_label 4 (doc_n 9)), Some (pair_label 3 (doc_n 3)),
            Some (pair_label 2 (doc_n 2))]" "doc_n 9"]
        onClientSet_accepts_iff_history_holds_current [of pair_label replicant_z
          "[Some (pair_label 1 (doc_n 7)), stale_label]" "doc_n 9"]
  by (simp add: replicant_z_def doc_n_def pair_label_def stale_label_def nth_or_undefined_def
        server_pushChanges_eq)

text \<open>
  Claim C9. A server replicant with an empty history (as the constructor leaves it) has
  \<open>undefined\<close> at \<open>revisionHistory[0]\<close>. A \<open>replicantSet\<close> whose history has no
  \<open>undefined\<close> entry is acknowledged \<open>false\<close> and changes nothing. A
  \<open>replicantChanged\<close> whose history has one entry is accepted, since its position 1 is
  \<open>undefined\<close> too: it is acknowledged \<open>true\<close> and, where the changes apply, their
  result is pushed as the first revision.
\<close>

theorem empty_history_rejects_set_accepts_change:
  "revisionHistory (server_Replicant prefix nm) = []
   \<and> (revisionHistory r = [] \<longrightarrow>
        (None \<notin> set setHistory \<longrightarrow>
           onClientSet H r setHistory newValue = (r, [Acknowledge False], None))
      \<and> (length changeHistory = 1 \<longrightarrow>
           hd (sent (onClientChange H r changeHistory changes)) = Acknowledge True
         \<and> (\<forall>v. applyChanges (val r) changes = Inr v \<longrightarrow>
              onClientChange H r changeHistory changes =
                (r\<lparr>updating := False,
                   revisionNum := revisionNum r + 1,
                   revisionHistory := [Some (H (revisionNum r + 1) v)],
                   val := v\<rparr>,
                 [Acknowledge True,
                  RoomChanged (roomPrefix r @ name r) (name r)
                    [Some (H (revisionNum r + 1) v)] changes],
                 None))
         \<and> (\<forall>e. applyChanges (val r) changes = Inl e \<longrightarrow>
              onClientChange H r changeHistory changes = (r, [Acknowledge True], Some e))))"
  by (simp add: server_Replicant_def onClientSet_def onClientChange_def server_pushChanges_eq
        outcome_simps nth_or_undefined_def split: sum.split)

theorem empty_history_rejects_set_accepts_change_witness:
  "onClientSet pair_label (server_Replicant ''replicants/'' ''x'')
      [Some (pair_label 1 (doc_n 1))] (doc_n 1) =
     (server_Replicant ''replicants/'' ''x'', [Acknowledge False], None)
   \<and> onClientChange pair_label (server_Replicant ''replicants/'' ''x'')
        [Some (pair_label 1 (doc_n 1))] [] =
       ((server_Replicant ''replicants/'' ''x'')
          \<lparr>revisionNum := 1, revisionHistory := [Some (pair_label 1 None)]\<rparr>,
        [Acknowledge True,
         RoomChanged ''replicants/x'' ''x'' [Some (pair_label 1 None)] []],
        None)
   \<and> onClientChange pair_label (server_Replicant ''replicants/'' ''x'')
        [Some (pair_label 1 (doc_n 1))] [Add ''n'' (Some (JNum 1))] =
       (server_Replicant ''replicants/'' ''x'', [Acknowledge True], Some TypeError)"
  using empty_history_rejects_set_accepts_change [of "''replicants/''" "''x''"
          "server_Replicant ''replicants/'' ''x''" "[Some (pair_label 1 (doc_n 1))]"
          pair_label "doc_n 1" "[Some (pair_label 1 (doc_n 1))]" "[]"]
        empty_history_rejects_set_accepts_change [of "''replicants/''" "''x''"
          "server_Replicant ''replicants/'' ''x''" "[Some (pair_label 1 (doc_n 1))]"
          pair_label "doc_n 1" "[Some (pair_label 1 (doc_n 1))]" "[Add ''n'' (Some (JNum 1))]"]
  by (simp add: server_Replicant_def doc_n_def pair_label_def applyChanges_def
        objectPath_set_def path_simps)

section \<open>The sequence number\<close>

text \<open>
  Claim C3. The sequence number of a replicant is the length of its revision history:
  both constructors establish the equation, and every operation of the server replicant
  (\<open>pushChanges\<close>, the setter, the observer callback, \<open>onClientGet\<close>,
  \<open>onClientSet\<close>, \<open>onClientChange\<close>) and of the client replicant (\<open>pushChanges\<close>,
  the setter, the observer callback, the acknowledgement callbacks, the registration
  callback, \<open>synchronize\<close>, \<open>onServerChange\<close>) preserves it, also when
  \<open>applyChanges\<close> or \<open>reverseChanges\<close> raises. \<open>onServerSet\<close> and the reply to
  \<open>synchronize\<close> establish it whatever the replicant was.
\<close>

theorem sequenceNumber_is_history_length:
  "seq_inv (server_Replicant prefix nm)
   \<and> seq_inv (fst (client_Replicant nm))
   \<and> (seq_inv s \<longrightarrow>
        seq_inv (fst (server_pushChanges H s ov nv cs))
      \<and> seq_inv (fst (server_set_value H s nv))
      \<and> seq_inv (state_of (server_onChange H s raw))
      \<and> seq_inv (fst (onClientGet s))
      \<and> seq_inv (state_of (onClientSet H s h nv))
      \<and> seq_inv (state_of (onClientChange H s h changes)))
   \<and> (seq_inv c \<longrightarrow>
        seq_inv (fst (client_pushChanges H c ov nv cs))
      \<and> seq_inv (fst (client_set_value H c nv))
      \<and> seq_inv (state_of (client_onChange H c raw))
      \<and> seq_inv (fst (changed_acknowledged c nv success))
      \<and> seq_inv (fst (set_acknowledged c success))
      \<and> seq_inv (fst (registered c))
      \<and> seq_inv (fst (synchronize c))
      \<and> seq_inv (state_of (onServerChange H c h changes)))
   \<and> seq_inv (onServerSet c h nv)
   \<and> seq_inv (synchronize_reply c h nv)"
proof -
  have fresh: "seq_inv (server_Replicant prefix nm :: 'a server_replicant)"
    "seq_inv (fst (client_Replicant nm :: 'b client_replicant \<times> 'b message list))"
    by (simp_all add: seq_inv_def server_Replicant_def client_Replicant_def)
  have server: "seq_inv (fst (server_pushChanges H s ov nv cs))
      \<and> seq_inv (fst (server_set_value H s nv))
      \<and> seq_inv (state_of (server_onChange H s raw))
      \<and> seq_inv (fst (onClientGet s))
      \<and> seq_inv (state_of (onClientSet H s h nv))
      \<and> seq_inv (state_of (onClientChange H s h changes))" if inv: "seq_inv s"
  proof -
    have 1: "seq_inv (fst (server_pushChanges H s ov nv cs))"
      using inv by (rule seq_inv_server_push)
    have 2: "seq_inv (fst (server_set_value H s nv))"
      using inv by (simp add: server_set_value_def seq_inv_server_push)
        (simp add: seq_inv_def store_value_def)
    have 3: "seq_inv (state_of (server_onChange H s raw))"
      using inv
      by (simp add: server_onChange_cases outcome_simps seq_inv_server_push split: sum.split)
    have 4: "seq_inv (fst (onClientGet s))"
      using inv by (simp add: onClientGet_def)
    have 5: "seq_inv (state_of (onClientSet H s h nv))"
      using inv by (simp add: onClientSet_cases outcome_simps seq_inv_def server_pushChanges_eq)
    have 6: "seq_inv (state_of (onClientChange H s h changes))"
      using inv
      by (simp add: onClientChange_cases outcome_simps seq_inv_server_push split: sum.split)
    from 1 2 3 4 5 6 show ?thesis by blast
  qed
  have client: "seq_inv (fst (client_pushChanges H c ov nv cs))
      \<and> seq_inv (fst (client_set_value H c nv))
      \<and> seq_inv (state_of (client_onChange H c raw))
      \<and> seq_inv (fst (changed_acknowledged c nv success))
      \<and> seq_inv (fst (set_acknowledged c success))
      \<and> seq_inv (fst (registered c))
      \<and> seq_inv (fst (synchronize c))
      \<and> seq_inv (state_of (onServerChange H c h changes))" if inv: "seq_inv c"
  proof -
    have 1: "seq_inv (fst (client_pushChanges H c ov nv cs))"
      using inv by (rule seq_inv_client_push)
    have 2: "seq_inv (fst (client_set_value H c nv))"
      using inv by (simp add: client_set_value_def seq_inv_client_push)
        (simp add: seq_inv_def store_value_def)
    have 3: "seq_inv (state_of (client_onChange H c raw))"
      using inv
      by (simp add: client_onChange_cases outcome_simps seq_inv_client_push split: sum.split)
    have 4: "seq_inv (fst (changed_acknowledged c nv success))"
      using inv by (simp add: changed_acknowledged_def)
    have 5: "seq_inv (fst (set_acknowledged c success))"
      using inv by (simp add: set_acknowledged_def synchronize_def)
    have 6: "seq_inv (fst (registered c))"
      using inv by (simp add: registered_def synchronize_def seq_inv_def)
    have 7: "seq_inv (fst (synchronize c))"
      using inv by (simp add: synchronize_def)
    have 8: "seq_inv (state_of (onServerChange H c h changes))"
      using inv
      by (simp add: onServerChange_cases outcome_simps seq_inv_overwrite split: sum.split)
    from 1 2 3 4 5 6 7 8 show ?thesis by blast
  qed
  have over: "seq_inv (onServerSet c h nv)" "seq_inv (synchronize_reply c h nv)"
    by (simp_all add: onServerSet_def synchronize_reply_def seq_inv_overwrite)
  from fresh server client over show ?thesis by blast
qed

theorem sequenceNumber_is_history_length_witness:
  "seq_inv replicant_z
   \<and> seq_inv (state_of (onClientSet pair_label replicant_z [Some (pair_label 2 (doc_n 2))] (doc_n 5)))
   \<and> seq_inv (state_of (onClientChange pair_label replicant_z
                 [Some (pair_label 3 (doc_n 3)), Some (pair_label 2 (doc_n 2))]
                 [Update ''n'' (Some (JNum 2)) (Some (JNum 3))]))
   \<and> seq_inv replicant_w
   \<and> seq_inv (fst (client_set_value pair_label replicant_w (doc_n 5)))
   \<and> seq_inv (state_of (onServerChange pair_label replicant_w
                 [Some (pair_label 3 (doc_n 3)), Some (pair_label 2 (doc_n 2))]
                 [Update ''n'' (Some (JNum 2)) (Some (JNum 3))]))"
proof -
  have z: "seq_inv replicant_z" and w: "seq_inv replicant_w"
    by (simp_all add: seq_inv_def replicant_z_def replicant_w_def)
  from z w
    sequenceNumber_is_history_length [where s = replicant_z and c = replicant_w
      and H = pair_label and nv = "doc_n 5" and h = "[Some (pair_label 2 (doc_n 2))]"]
    sequenceNumber_is_history_length [where s = replicant_z and c = replicant_w
      and H = pair_label
      and h = "[Some (pair_label 3 (doc_n 3)), Some (pair_label 2 (doc_n 2))]"
      and changes = "[Update ''n'' (Some (JNum 2)) (Some (JNum 3))]"]
  show ?thesis by blast
qed

lemma label_inv_server_push: "label_inv H (fst (server_pushChanges H r ov nv cs))"
  by (simp add: label_inv_def server_pushChanges_eq nth_or_undefined_def revision_def)

lemma label_inv_client_push: "label_inv H (fst (client_pushChanges H r ov nv cs))"
  by (simp add: label_inv_def client_pushChanges_eq nth_or_undefined_def revision_def)

lemma label_inv_overwrite:
  "label_inv H (overwrite r h v) = (nth_or_undefined h 0 = Some (H (length h) v))"
  by (simp add: label_inv_def overwrite_eq revision_def)

section \<open>The client's handling of inbound changes\<close>

text \<open>
  Claim C6. When a client replicant receives \<open>replicantChanged\<close> with the server's
  history and a list of changes: if its revision, the label of its sequence number and
  stored value, is \<open>serverHistory[1]\<close>, it applies the changes to its value, stores the
  result, and takes the server's history and the length of it as its own. Otherwise it
  applies nothing: it is unchanged and sends \<open>replicantGet\<close>, and the reply
  overwrites its value, history and sequence number. (Where \<open>applyChanges\<close> raises,
  the replicant is unchanged and nothing is sent.)
\<close>

theorem onServerChange_applies_or_synchronizes:
  "(Some (revision H r) = nth_or_undefined serverHistory 1 \<longrightarrow>
      (\<forall>newValue. applyChanges (val r) changes = Inr newValue \<longrightarrow>
         onServerChange H r serverHistory changes =
           (r\<lparr>updating := False, revisionNum := length serverHistory,
              revisionHistory := serverHistory, val := newValue\<rparr>,
            [], None))
    \<and> (\<forall>e. applyChanges (val r) changes = Inl e \<longrightarrow>
          onServerChange H r serverHistory changes = (r, [], Some e)))
   \<and> (Some (revision H r) \<noteq> nth_or_undefined serverHistory 1 \<longrightarrow>
        onServerChange H r serverHistory changes = (r, [ReplicantGet (name r)], None)
      \<and> synchronize r = (r, [ReplicantGet (name r)])
      \<and> synchronize_reply r replyHistory replyValue =
          r\<lparr>updating := False, revisionNum := length replyHistory,
            revisionHistory := replyHistory, val := replyValue\<rparr>)"
  by (simp add: onServerChange_cases synchronize_def synchronize_reply_def overwrite_eq
        split: sum.split)

theorem onServerChange_applies_or_synchronizes_witness:
  "onServerChange pair_label replicant_w
      [Some (pair_label 3 (doc_n 3)), Some (pair_label 2 (doc_n 2))]
      [Update ''n'' (Some (JNum 2)) (Some (JNum 3))] =
     (replicant_w\<lparr>revisionNum := 2,
        revisionHistory := [Some (pair_label 3 (doc_n 3)), Some (pair_label 2 (doc_n 2))],
        val := doc_n 3\<rparr>,
      [], None)
   \<and> onServerChange pair_label replicant_w
        [Some (pair_label 1 (doc_n 7)), stale_label]
        [Update ''n'' (Some (JNum 2)) (Some (JNum 3))] =
       (replicant_w, [ReplicantGet ''w''], None)
   \<and> synchronize_reply replicant_w [Some (pair_label 1 (doc_n 7))] (doc_n 7) =
       replicant_w\<lparr>revisionNum := 1, revisionHistory := [Some (pair_label 1 (doc_n 7))],
         val := doc_n 7\<rparr>"
  using onServerChange_applies_or_synchronizes [of pair_label replicant_w
          "[Some (pair_label 3 (doc_n 3)), Some (pair_label 2 (doc_n 2))]"
          "[Update ''n'' (Some (JNum 2)) (Some (JNum 3))]"]
        onServerChange_applies_or_synchronizes [of pair_label replicant_w
          "[Some (pair_label 1 (doc_n 7)), stale_label]"
          "[Update ''n'' (Some (JNum 2)) (Some (JNum 3))]"
          "[Some (pair_label 1 (doc_n 7))]" "doc_n 7"]
  by (simp add: replicant_w_def doc_n_def pair_label_def stale_label_def nth_or_undefined_def
        revision_def applyChanges_def objectPath_set_def path_simps)

section \<open>Local writes on the client\<close>

text \<open>
  Claim C7, as the spec states it, fails for a direct assignment: the client's
  \<open>pushChanges\<close> does not store the assigned value, so the label it puts in front of
  the history is the label of the new sequence number and the value held before. The
  fresh client replicant \<open>x\<close> holds \<open>undefined\<close>; after the assignment of \<open>{n: 1}\<close>
  its history is the label of \<open>(1, undefined)\<close>, not that of \<open>(1, {n: 1})\<close>.
\<close>

theorem client_assignment_label_counterexample:
  "\<not> updating replicant_x
   \<and> val replicant_x = None
   \<and> revisionNum (fst (client_set_value pair_label replicant_x (doc_n 1))) = 1
   \<and> revisionHistory (fst (client_set_value pair_label replicant_x (doc_n 1))) =
       [Some (pair_label 1 None)]
   \<and> hd (revisionHistory (fst (client_set_value pair_label replicant_x (doc_n 1)))) \<noteq>
       Some (pair_label 1 (doc_n 1))"
  by (simp add: replicant_x_def client_Replicant_def client_set_value_def client_pushChanges_eq
        pair_label_def doc_n_def)

text \<open>
  Claim C7, amended. Every \<open>pushChanges\<close> of the client adds one to the sequence
  number and puts in front of the history the label of the new sequence number and the
  stored value, which it leaves as it is; the one message it sends carries the history
  that already has the new label. The setter, outside the updating region, is this
  \<open>pushChanges\<close> with the assigned value as \<open>newValue\<close>. The observer callback, where
  \<open>reverseChanges\<close> returns, is this \<open>pushChanges\<close> with the stored value as
  \<open>newValue\<close>, so on that path the label is the label of the new sequence number and
  \<open>newValue\<close>.
\<close>

theorem client_pushChanges_prepends_label_of_stored_value:
  "revisionNum (fst (client_pushChanges H r oldValue newValue changes)) = revisionNum r + 1
   \<and> revisionHistory (fst (client_pushChanges H r oldValue newValue changes)) =
       Some (H (revisionNum r + 1) (val r)) # revisionHistory r
   \<and> val (fst (client_pushChanges H r oldValue newValue changes)) = val r
   \<and> snd (client_pushChanges H r oldValue newValue changes) =
       [case changes of
          Some cs \<Rightarrow> ReplicantChanged (name r)
                      (revisionHistory (fst (client_pushChanges H r oldValue newValue changes))) cs
        | None \<Rightarrow> ReplicantSet (name r)
                      (revisionHistory (fst (client_pushChanges H r oldValue newValue changes)))
                      newValue]
   \<and> (\<not> updating r \<longrightarrow>
        client_set_value H r newValue = client_pushChanges H r (val r) newValue None)
   \<and> (\<not> updating r \<longrightarrow>
        (\<forall>ov. reverseChanges (val r) (map formatChange raw) = Inr ov \<longrightarrow>
           state_of (client_onChange H r raw) =
             fst (client_pushChanges H r ov (val r) (Some (map formatChange raw)))
         \<and> sent (client_onChange H r raw) =
             snd (client_pushChanges H r ov (val r) (Some (map formatChange raw)))
         \<and> hd (revisionHistory (state_of (client_onChange H r raw))) =
             Some (H (revisionNum (state_of (client_onChange H r raw))) (val r))))"
  by (cases changes)
     (simp_all add: client_pushChanges_eq client_set_value_def client_onChange_cases outcome_simps)

theorem client_pushChanges_prepends_label_of_stored_value_witness:
  "client_set_value pair_label replicant_w (doc_n 5) =
     (replicant_w\<lparr>revisionNum := 3,
        revisionHistory := [Some (pair_label 3 (doc_n 2)), Some (pair_label 2 (doc_n 2)),
                            Some (pair_label 1 (doc_n 1))]\<rparr>,
      [ReplicantSet ''w''
         [Some (pair_label 3 (doc_n 2)), Some (pair_label 2 (doc_n 2)),
          Some (pair_label 1 (doc_n 1))]
         (doc_n 5)])
   \<and> hd (revisionHistory (state_of (client_onChange pair_label replicant_w []))) =
       Some (pair_label 3 (doc_n 2))"
  using client_pushChanges_prepends_label_of_stored_value [of pair_label replicant_w
          "val replicant_w" "doc_n 5" None "[]"]
  by (simp add: replicant_w_def doc_n_def pair_label_def reverseChanges_def client_pushChanges_eq)

text \<open>
  Claim C10. An assignment to the value of a client replicant that is not updating leaves
  the stored value as it was, and so do \<open>pushChanges\<close>, the observer callback, the
  acknowledgement callbacks, the registration callback and \<open>synchronize\<close>. The setter
  stores only while the replicant is updating, and \<open>onServerSet\<close>, the reply to
  \<open>synchronize\<close> and an accepted \<open>onServerChange\<close> are that store between setting
  and clearing the flag; an \<open>onServerChange\<close> that is not accepted, or whose
  changes raise, stores nothing.
\<close>

theorem client_value_replaced_only_while_updating:
  "(\<not> updating r \<longrightarrow> val (fst (client_set_value H r newValue)) = val r)
   \<and> val (fst (client_pushChanges H r oldValue newValue changes)) = val r
   \<and> val (state_of (client_onChange H r raw)) = val r
   \<and> val (fst (changed_acknowledged r newValue success)) = val r
   \<and> val (fst (set_acknowledged r success)) = val r
   \<and> val (fst (registered r)) = val r
   \<and> val (fst (synchronize r)) = val r
   \<and> (updating r \<longrightarrow> client_set_value H r newValue = (store_value r newValue, []))
   \<and> onServerSet r history newValue =
       (fst (client_set_value H (r\<lparr>updating := True\<rparr>) newValue))
         \<lparr>revisionHistory := history, revisionNum := length history, updating := False\<rparr>
   \<and> synchronize_reply r history newValue =
       (fst (client_set_value H (r\<lparr>updating := True\<rparr>) newValue))
         \<lparr>revisionHistory := history, revisionNum := length history, updating := False\<rparr>
   \<and> (Some (revision H r) = nth_or_undefined history 1 \<longrightarrow>
        (\<forall>v. applyChanges (val r) cs = Inr v \<longrightarrow>
           state_of (onServerChange H r history cs) =
             (fst (client_set_value H (r\<lparr>updating := True\<rparr>) v))
               \<lparr>revisionHistory := history, revisionNum := length history, updating := False\<rparr>)
      \<and> (\<forall>e. applyChanges (val r) cs = Inl e \<longrightarrow>
            val (state_of (onServerChange H r history cs)) = val r))
   \<and> (Some (revision H r) \<noteq> nth_or_undefined history 1 \<longrightarrow>
        val (state_of (onServerChange H r history cs)) = val r)"
  by (simp add: client_set_value_def client_pushChanges_eq client_onChange_cases
        changed_acknowledged_def set_acknowledged_def registered_def synchronize_def
        onServerSet_def synchronize_reply_def onServerChange_cases overwrite_eq store_value_def
        outcome_simps split: sum.split)

theorem client_value_replaced_only_while_updating_witness:
  "val (fst (client_set_value pair_label replicant_w (doc_n 5))) = doc_n 2
   \<and> val (fst (client_set_value pair_label (replicant_w\<lparr>updating := True\<rparr>) (doc_n 5))) = doc_n 5
   \<and> val (state_of (onServerChange pair_label replicant_w
             [Some (pair_label 3 (doc_n 3)), Some (pair_label 2 (doc_n 2))]
             [Update ''n'' (Some (JNum 2)) (Some (JNum 3))])) = doc_n 3
   \<and> val (state_of (onServerChange pair_label replicant_w
             [Some (pair_label 1 (doc_n 7)), stale_label]
             [Update ''n'' (Some (JNum 2)) (Some (JNum 3))])) = doc_n 2"
  using client_value_replaced_only_while_updating [of replicant_w pair_label "doc_n 5"
          "val replicant_w" None "[]" True
          "[Some (pair_label 3 (doc_n 3)), Some (pair_label 2 (doc_n 2))]"
          "[Update ''n'' (Some (JNum 2)) (Some (JNum 3))]"]
        client_value_replaced_only_while_updating [of "replicant_w\<lparr>updating := True\<rparr>"
          pair_label "doc_n 5" "val replicant_w" None "[]" True
          "[Some (pair_label 1 (doc_n 7)), stale_label]"
          "[Update ''n'' (Some (JNum 2)) (Some (JNum 3))]"]
        client_value_replaced_only_while_updating [of replicant_w pair_label "doc_n 5"
          "val replicant_w" None "[]" True
          "[Some (pair_label 1 (doc_n 7)), stale_label]"
          "[Update ''n'' (Some (JNum 2)) (Some (JNum 3))]"]
  by (simp add: replicant_w_def doc_n_def pair_label_def stale_label_def nth_or_undefined_def
        revision_def applyChanges_def objectPath_set_def path_simps store_value_def
        client_set_value_def client_pushChanges_eq)

section \<open>The label at the head of the history\<close>

text \<open>
  Claim C4, as the spec states it, fails for a replicant whose history is empty: the
  constructors leave the history empty, so \<open>revisionHistory[0]\<close> is \<open>undefined\<close>
  while the label of \<open>(0, undefined)\<close> is a label. The same holds for a client after the
  cold registration of scenario 1, when the reply to \<open>replicantGet\<close> is the empty
  history and \<open>undefined\<close>. All three replicants are quiescent.
\<close>

theorem empty_history_label_counterexample:
  "\<not> updating (server_Replicant ''replicants/'' ''x'' :: (nat \<times> json option) server_replicant)
   \<and> nth_or_undefined
        (revisionHistory (server_Replicant ''replicants/'' ''x'' :: (nat \<times> json option) server_replicant))
        0 = None
   \<and> \<not> label_inv pair_label (server_Replicant ''replicants/'' ''x'')
   \<and> \<not> updating replicant_x
   \<and> \<not> label_inv pair_label replicant_x
   \<and> \<not> updating (synchronize_reply replicant_x [] None)
   \<and> \<not> label_inv pair_label (synchronize_reply replicant_x [] None)"
  by (simp add: server_Replicant_def replicant_x_def client_Replicant_def label_inv_def
        nth_or_undefined_def synchronize_reply_def overwrite_eq)

text \<open>
  Claim C4, amended. After every \<open>pushChanges\<close>, of the server and of the client, the
  head of the history is the label of the sequence number and the stored value. So it is
  after every assignment outside the updating region, after every observer callback that
  does not raise, and after every \<open>replicantSet\<close> and every \<open>replicantChanged\<close> that
  the server accepts (where the changes apply); the handlers of the server preserve the
  equation in every case. A client that overwrites its state from a message
  (\<open>onServerSet\<close>, the reply to \<open>synchronize\<close>, an accepted \<open>onServerChange\<close>)
  satisfies the equation exactly when the first label of the message is the label of the
  length of the message's history and the value it stores; that is so for the history and
  value that the \<open>pushChanges\<close> of a server replicant sends when that replicant's
  sequence number was the length of its history.
\<close>

theorem pushChanges_establishes_head_label:
  "label_inv H (fst (server_pushChanges H s ov nv cs))
   \<and> label_inv H (fst (client_pushChanges H c ov nv cs))
   \<and> (\<not> updating s \<longrightarrow> label_inv H (fst (server_set_value H s nv)))
   \<and> (\<not> updating c \<longrightarrow> label_inv H (fst (client_set_value H c nv)))
   \<and> (\<not> updating s \<and> raised (server_onChange H s raw) = None \<longrightarrow>
        label_inv H (state_of (server_onChange H s raw)))
   \<and> (\<not> updating c \<and> raised (client_onChange H c raw) = None \<longrightarrow>
        label_inv H (state_of (client_onChange H c raw)))
   \<and> (nth_or_undefined (revisionHistory s) 0 \<in> set h \<longrightarrow>
        label_inv H (state_of (onClientSet H s h nv)))
   \<and> (nth_or_undefined h 1 = nth_or_undefined (revisionHistory s) 0
        \<and> raised (onClientChange H s h changes) = None \<longrightarrow>
        label_inv H (state_of (onClientChange H s h changes)))
   \<and> (label_inv H s \<longrightarrow>
        label_inv H (fst (onClientGet s))
      \<and> label_inv H (state_of (onClientSet H s h nv))
      \<and> label_inv H (state_of (onClientChange H s h changes)))
   \<and> (label_inv H (onServerSet c h nv) = (nth_or_undefined h 0 = Some (H (length h) nv)))
   \<and> (label_inv H (synchronize_reply c h nv) = (nth_or_undefined h 0 = Some (H (length h) nv)))
   \<and> (Some (revision H c) = nth_or_undefined h 1 \<longrightarrow>
        (\<forall>v. applyChanges (val c) changes = Inr v \<longrightarrow>
           label_inv H (state_of (onServerChange H c h changes)) =
             (nth_or_undefined h 0 = Some (H (length h) v))))
   \<and> (seq_inv s \<longrightarrow>
        label_inv H (onServerSet c (revisionHistory (fst (server_pushChanges H s ov nv cs))) nv))"
proof -
  have push: "label_inv H (fst (server_pushChanges H s ov nv cs))"
    "label_inv H (fst (client_pushChanges H c ov nv cs))"
    by (rule label_inv_server_push, rule label_inv_client_push)
  have setter: "\<not> updating s \<longrightarrow> label_inv H (fst (server_set_value H s nv))"
    "\<not> updating c \<longrightarrow> label_inv H (fst (client_set_value H c nv))"
    by (simp_all add: server_set_value_def client_set_value_def label_inv_server_push
          label_inv_client_push)
  have observer:
    "\<not> updating s \<and> raised (server_onChange H s raw) = None \<longrightarrow>
       label_inv H (state_of (server_onChange H s raw))"
    "\<not> updating c \<and> raised (client_onChange H c raw) = None \<longrightarrow>
       label_inv H (state_of (client_onChange H c raw))"
    by (simp_all add: server_onChange_cases client_onChange_cases outcome_simps
          label_inv_server_push label_inv_client_push split: sum.split)
  have accepted:
    "nth_or_undefined (revisionHistory s) 0 \<in> set h \<longrightarrow>
       label_inv H (state_of (onClientSet H s h nv))"
    "nth_or_undefined h 1 = nth_or_undefined (revisionHistory s) 0
       \<and> raised (onClientChange H s h changes) = None \<longrightarrow>
       label_inv H (state_of (onClientChange H s h changes))"
    by (simp_all add: onClientSet_cases onClientChange_cases outcome_simps
          label_inv_server_push split: sum.split)
  have preserved: "label_inv H (fst (onClientGet s))
      \<and> label_inv H (state_of (onClientSet H s h nv))
      \<and> label_inv H (state_of (onClientChange H s h changes))" if "label_inv H s"
    using that
    by (simp add: onClientGet_def onClientSet_cases onClientChange_cases outcome_simps
          label_inv_server_push split: sum.split)
  have overwritten:
    "label_inv H (onServerSet c h nv) = (nth_or_undefined h 0 = Some (H (length h) nv))"
    "label_inv H (synchronize_reply c h nv) = (nth_or_undefined h 0 = Some (H (length h) nv))"
    by (simp_all add: onServerSet_def synchronize_reply_def label_inv_overwrite)
  have change: "Some (revision H c) = nth_or_undefined h 1 \<longrightarrow>
        (\<forall>v. applyChanges (val c) changes = Inr v \<longrightarrow>
           label_inv H (state_of (onServerChange H c h changes)) =
             (nth_or_undefined h 0 = Some (H (length h) v)))"
    by (simp add: onServerChange_cases outcome_simps label_inv_overwrite)
  have multicast: "label_inv H
      (onServerSet c (revisionHistory (fst (server_pushChanges H s ov nv cs))) nv)"
    if "seq_inv s"
    using that
    by (simp add: onServerSet_def label_inv_overwrite server_pushChanges_eq seq_inv_def
          nth_or_undefined_def)
  from push setter observer accepted preserved overwritten change multicast
  show ?thesis by blast
qed

theorem pushChanges_establishes_head_label_witness:
  "label_inv pair_label replicant_z
   \<and> label_inv pair_label
        (state_of (onClientSet pair_label replicant_z [Some (pair_label 2 (doc_n 2))] (doc_n 5)))
   \<and> label_inv pair_label
        (state_of (onClientChange pair_label replicant_z
           [Some (pair_label 3 (doc_n 3)), Some (pair_label 2 (doc_n 2))]
           [Update ''n'' (Some (JNum 2)) (Some (JNum 3))]))
   \<and> label_inv pair_label (fst (client_set_value pair_label replicant_x (doc_n 1)))
   \<and> label_inv pair_label
        (onServerSet replicant_x
           (revisionHistory (fst (server_pushChanges pair_label replicant_z None (doc_n 5) None)))
           (doc_n 5))"
proof -
  have z: "label_inv pair_label replicant_z" "seq_inv replicant_z"
    "nth_or_undefined (revisionHistory replicant_z) 0 \<in> set [Some (pair_label 2 (doc_n 2))]"
    by (simp_all add: label_inv_def seq_inv_def replicant_z_def nth_or_undefined_def revision_def)
  have x: "\<not> updating replicant_x"
    by (simp add: replicant_x_def client_Replicant_def)
  have ok: "raised (onClientChange pair_label replicant_z
       [Some (pair_label 3 (doc_n 3)), Some (pair_label 2 (doc_n 2))]
       [Update ''n'' (Some (JNum 2)) (Some (JNum 3))]) = None"
    "nth_or_undefined [Some (pair_label 3 (doc_n 3)), Some (pair_label 2 (doc_n 2))] 1 =
       nth_or_undefined (revisionHistory replicant_z) 0"
    by (simp_all add: onClientChange_cases outcome_simps replicant_z_def doc_n_def
          nth_or_undefined_def applyChanges_def objectPath_set_def path_simps)
  from z x ok
    pushChanges_establishes_head_label [where H = pair_label and s = replicant_z
      and c = replicant_x and h = "[Some (pair_label 2 (doc_n 2))]" and nv = "doc_n 5"
      and ov = None and cs = None]
    pushChanges_establishes_head_label [where H = pair_label and s = replicant_z
      and c = replicant_x
      and h = "[Some (pair_label 3 (doc_n 3)), Some (pair_label 2 (doc_n 2))]"
      and changes = "[Update ''n'' (Some (JNum 2)) (Some (JNum 3))]" and nv = "doc_n 1"]
  show ?thesis by blast
qed

section \<open>Reading a position after writing it\<close>

lemma split_dot_not_Nil: "split_dot p \<noteq> []"
  by (induction p) (auto split: list.splits)

lemma path_segments_Nil: "(path_segments p = []) = (p = [])"
  by (simp add: path_segments_def split_dot_not_Nil)

lemma js_splice_Nil: "js_splice [] i dc items = items"
  by (simp add: js_splice_def Let_def)

lemma set_in_primitive: "\<not> is_container v \<Longrightarrow> \<exists>e. set_in v k ks x = Inl e"
proof (induction ks arbitrary: v k)
  case Nil
  then show ?case by (cases v) (simp_all add: is_container_def)
next
  case (Cons k' ks)
  show ?case
  proof (cases "own_prop v k")
    case None
    with Cons.prems show ?thesis by (cases v) (simp_all add: is_container_def)
  next
    case (Some c)
    with Cons.prems have "\<not> is_container c"
      by (cases v) (auto simp: is_container_def split: option.splits if_splits)
    from Cons.IH [OF this] obtain e where "set_in c k' ks x = Inl e" by blast
    with Some show ?thesis by simp
  qed
qed

lemma own_prop_after_assign: "assign obj k x = Inr obj' \<Longrightarrow> own_prop obj' k = Some x"
  by (cases obj) (auto split: option.splits if_splits simp: nth_append)

lemma own_prop_replace_after_assign:
  "assign obj k y = Inr obj1 \<Longrightarrow> own_prop (replace_child obj1 k c) k = Some c"
  by (cases obj) (auto split: option.splits if_splits)

lemma own_prop_replace_child:
  "own_prop obj k = Some c0 \<Longrightarrow> is_container c0 \<Longrightarrow> own_prop (replace_child obj k c) k = Some c"
  by (cases obj) (auto split: option.splits if_splits simp: is_container_def)

lemma get_in_after_set_in: "set_in obj k ks x = Inr obj' \<Longrightarrow> get_in obj' k ks = Some x"
proof (induction ks arbitrary: obj k obj')
  case Nil
  then show ?case by (simp add: own_prop_after_assign)
next
  case (Cons k' ks)
  show ?case
  proof (cases "own_prop obj k")
    case None
    let ?fresh = "if numeric_key k' then JArr [] else JObj fmempty"
    from Cons.prems None obtain obj1 c where
      a: "assign obj k ?fresh = Inr obj1" and s: "set_in ?fresh k' ks x = Inr c"
      and o: "obj' = replace_child obj1 k c"
      by (auto simp: Let_def split: sum.splits)
    from a have "own_prop obj' k = Some c"
      unfolding o by (rule own_prop_replace_after_assign)
    moreover from Cons.IH [OF s] have "get_in c k' ks = Some x" .
    ultimately show ?thesis by simp
  next
    case (Some c0)
    from Cons.prems Some obtain c where
      s: "set_in c0 k' ks x = Inr c" and o: "obj' = replace_child obj k c"
      by (auto split: sum.splits)
    from s set_in_primitive [of c0 k' ks x] have "is_container c0" by auto
    with Some have "own_prop obj' k = Some c"
      unfolding o by (rule own_prop_replace_child)
    moreover from Cons.IH [OF s] have "get_in c k' ks = Some x" .
    ultimately show ?thesis by simp
  qed
qed

lemma objectPath_get_after_set:
  assumes "path \<noteq> []" and "objectPath_set v path (Some x) = Inr v'"
  shows "objectPath_get v' path = Some x"
proof -
  from assms(1) obtain k ks where segs: "path_segments path = k # ks"
    by (cases "path_segments path") (simp_all add: path_segments_Nil)
  with assms(2) obtain obj obj' where "v = Some obj" "set_in obj k ks x = Inr obj'" "v' = Some obj'"
    by (auto simp: objectPath_set_def split: option.splits sum.splits)
  with segs show ?thesis
    by (simp add: objectPath_get_def get_in_after_set_in)
qed

section \<open>Splice on a position that holds no sequence\<close>

text \<open>
  Claim C8, as the spec states it, fails in two ways. The code takes the empty array only
  when what the path resolves to is falsy (\<open>if (!arr)\<close>): in \<open>{n: 5}\<close> the path
  \<open>n\<close> resolves to a number, which is no sequence, and the splice that adds \<open>[1]\<close>
  leaves \<open>{n: 5}\<close>, while with an empty sequence at \<open>n\<close> it gives \<open>{n: [1]}\<close>. And
  for the empty path nothing is stored: the value \<open>null\<close> stays \<open>null\<close>. The same holds
  in the reverse direction for \<open>removed\<close>.
\<close>

theorem splice_of_truthy_or_root_target_counterexample:
  "objectPath_get (doc_n 5) ''n'' = Some (JNum 5)
   \<and> applyChanges (doc_n 5) [Splice ''n'' 0 [] 0 [JNum 1] 1] = Inr (doc_n 5)
   \<and> objectPath_get (doc_n 5) ''n'' \<noteq> Some (JArr [JNum 1])
   \<and> applyChanges (Some (JObj (fmupd ''n'' (JArr []) fmempty))) [Splice ''n'' 0 [] 0 [JNum 1] 1] =
       Inr (Some (JObj (fmupd ''n'' (JArr [JNum 1]) fmempty)))
   \<and> reverseChanges (doc_n 5) [Splice ''n'' 0 [JNum 1] 1 [] 0] = Inr (doc_n 5)
   \<and> objectPath_get (Some JNull) [] = Some JNull
   \<and> applyChanges (Some JNull) [Splice [] 0 [] 0 [JNum 1] 1] = Inr (Some JNull)
   \<and> reverseChanges (Some JNull) [Splice [] 0 [JNum 1] 1 [] 0] = Inr (Some JNull)"
  by (simp add: doc_n_def applyChanges_def reverseChanges_def splice_at_def objectPath_get_def
        objectPath_set_def changed_in_place_def js_splice_def path_simps)

text \<open>
  Claim C8, amended. For a splice whose path is not empty and resolves, in the value, to
  nothing or to a falsy value (\<open>undefined\<close>, \<open>null\<close>, \<open>false\<close>, \<open>0\<close>, the empty
  string): when \<open>applyChanges\<close> returns, the result holds the array \<open>added\<close> at that
  path, whatever \<open>index\<close> and \<open>removedCount\<close> are, and when \<open>reverseChanges\<close>
  returns, the result holds \<open>removed\<close>. Both return when the value is an object and the
  path is one key other than \<open>__proto__\<close>.
\<close>

theorem splice_of_falsy_target_stores_items:
  "path \<noteq> [] \<and> falsy (objectPath_get v path) \<longrightarrow>
     (\<forall>v'. applyChanges v [Splice path index removed removedCount added addedCount] = Inr v' \<longrightarrow>
        objectPath_get v' path = Some (JArr added))
   \<and> (\<forall>v'. reverseChanges v [Splice path index removed removedCount added addedCount] = Inr v' \<longrightarrow>
        objectPath_get v' path = Some (JArr removed))
   \<and> (\<forall>m k. v = Some (JObj m) \<and> path_segments path = [k] \<and> k \<noteq> ''__proto__'' \<longrightarrow>
        applyChanges v [Splice path index removed removedCount added addedCount] =
          Inr (Some (JObj (fmupd k (JArr added) m)))
      \<and> reverseChanges v [Splice path index removed removedCount added addedCount] =
          Inr (Some (JObj (fmupd k (JArr removed) m))))"
  by (auto simp: applyChanges_def reverseChanges_def splice_at_def js_splice_Nil Let_def
        objectPath_get_after_set objectPath_set_def split: sum.splits)

theorem splice_of_falsy_target_stores_items_witness:
  "falsy (objectPath_get (doc_n 0) ''n'')
   \<and> applyChanges (doc_n 0) [Splice ''n'' 3 [JNum 7] 2 [JNum 1] 1] =
       Inr (Some (JObj (fmupd ''n'' (JArr [JNum 1]) fmempty)))
   \<and> reverseChanges (doc_n 0) [Splice ''n'' 3 [JNum 7] 2 [JNum 1] 1] =
       Inr (Some (JObj (fmupd ''n'' (JArr [JNum 7]) fmempty)))
   \<and> falsy (objectPath_get (Some (JObj fmempty)) ''a.b'')
   \<and> applyChanges (Some (JObj fmempty)) [Splice ''a.b'' 0 [] 0 [JNum 1] 1] =
       Inr (Some (JObj (fmupd ''a'' (JObj (fmupd ''b'' (JArr [JNum 1]) fmempty)) fmempty)))
   \<and> objectPath_get
        (Some (JObj (fmupd ''a'' (JObj (fmupd ''b'' (JArr [JNum 1]) fmempty)) fmempty))) ''a.b'' =
       Some (JArr [JNum 1])"
proof -
  have n: "''n'' \<noteq> [] \<and> falsy (objectPath_get (doc_n 0) ''n'')"
    and segs: "doc_n 0 = Some (JObj (fmupd ''n'' (JNum 0) fmempty)) \<and> path_segments ''n'' = [''n'']
      \<and> ''n'' \<noteq> ''__proto__''"
    by (simp_all add: doc_n_def objectPath_get_def path_simps)
  have ab: "''a.b'' \<noteq> [] \<and> falsy (objectPath_get (Some (JObj fmempty)) ''a.b'')"
    by (simp add: objectPath_get_def path_simps)
  have ret: "applyChanges (Some (JObj fmempty)) [Splice ''a.b'' 0 [] 0 [JNum 1] 1] =
      Inr (Some (JObj (fmupd ''a'' (JObj (fmupd ''b'' (JArr [JNum 1]) fmempty)) fmempty)))"
    by (simp add: applyChanges_def splice_at_def objectPath_get_def objectPath_set_def
          js_splice_def path_simps)
  note one_key =
    splice_of_falsy_target_stores_items [of "''n''" "doc_n 0" 3 "[JNum 7]" 2 "[JNum 1]" 1,
      THEN mp, OF n, THEN conjunct2, THEN conjunct2, THEN spec, THEN spec, THEN mp, OF segs]
  note nested =
    splice_of_falsy_target_stores_items [of "''a.b''" "Some (JObj fmempty)" 0 "[]" 0 "[JNum 1]" 1,
      THEN mp, OF ab, THEN conjunct1, THEN spec, THEN mp, OF ret]
  from one_key have
    "applyChanges (doc_n 0) [Splice ''n'' 3 [JNum 7] 2 [JNum 1] 1] =
       Inr (Some (JObj (fmupd ''n'' (JArr [JNum 1]) fmempty)))"
    "reverseChanges (doc_n 0) [Splice ''n'' 3 [JNum 7] 2 [JNum 1] 1] =
       Inr (Some (JObj (fmupd ''n'' (JArr [JNum 7]) fmempty)))"
    by simp_all
  with n ab ret nested show ?thesis by blast
qed

section \<open>Applying and reversing well-formed changes\<close>

lemma slot_own_prop: "slot obj k = Some c \<Longrightarrow> own_prop obj k = Some c"
  by (cases obj) (auto split: option.splits if_splits)


lemma slot_replace_child: "slot obj k = Some c \<Longrightarrow> slot (replace_child obj k c') k = Some c'"
  by (cases obj) (auto split: option.splits if_splits)




lemma parent_in_replace_child:
  "slot obj k = Some c \<Longrightarrow>
   parent_in (replace_child obj k c') k (k' # ks) = parent_in c' k' ks"
  by (simp add: slot_replace_child)






lemma get_in_parent:
  "parent_in obj k ks = Some (p, kl) \<Longrightarrow> slot p kl = Some y \<Longrightarrow> get_in obj k ks = Some y"
proof (induction ks arbitrary: obj k)
  case Nil
  then show ?case by (simp add: slot_own_prop split: if_splits)
next
  case (Cons k' ks)
  then obtain c where c: "slot obj k = Some c" and par: "parent_in c k' ks = Some (p, kl)"
    by (auto split: option.splits)
  from Cons.IH [OF par Cons.prems(2)] c show ?case
    by (simp add: slot_own_prop)
qed





lemma parent_ofE:
  assumes "parent_of v path = Some (p, kl)"
  obtains obj k ks where "v = Some obj" "path_segments path = k # ks"
    "parent_in obj k ks = Some (p, kl)"
  using assms by (auto simp: parent_of_def split: list.splits option.splits)

















subsection \<open>The codec computes the transition that a change describes\<close>








subsection \<open>Records of a burst\<close>




subsection \<open>Segments that are indices\<close>


lemma digit_cases:
  assumes "is_digit c"
  obtains d :: nat where "d < 10" "(of_char c :: nat) = 48 + d"
  using assms unfolding is_digit_def by auto

lemma digit_inj:
  assumes "is_digit c" and "is_digit d" and "(of_char c - 48 :: nat) = of_char d - 48"
  shows "c = d"
proof -
  from assms(1) obtain a :: nat where a: "(of_char c :: nat) = 48 + a" by (rule digit_cases)
  from assms(2) obtain b :: nat where b: "(of_char d :: nat) = 48 + b" by (rule digit_cases)
  from a b assms(3) have "(of_char c :: nat) = of_char d" by simp
  then show ?thesis by simp
qed









subsection \<open>The records of a burst of assignments, applied\<close>






lemma slot_of_index:
  "getKey k = Some (int n) \<Longrightarrow> slot (JArr xs) k = (if n < length xs then Some (xs ! n) else None)"
  by simp















lemma holdsE:
  assumes "holds v2 path x"
  obtains f k ks pf kl F where "v2 = Some f" "path_segments path = k # ks"
    "parent_in f k ks = Some (pf, kl)" "slot pf kl = Some F" "x = Some F"
proof -
  from assms obtain pf kl F where par: "parent_of v2 path = Some (pf, kl)"
    and sl: "slot pf kl = Some F" and x: "x = Some F"
    by (auto simp: holds_def split: option.splits)
  from par obtain f k ks where "v2 = Some f" "path_segments path = k # ks"
    "parent_in f k ks = Some (pf, kl)"
    by (rule parent_ofE)
  with sl x that show ?thesis by blast
qed

lemma holds_objectPath_get: "holds v2 path x \<Longrightarrow> objectPath_get v2 path = x"
  by (auto elim!: holdsE simp: objectPath_get_def get_in_parent)








end
